theory Spec2Isabelle
  imports Complex_Main "HOL-Library.Word"
begin

unbundle bit_operations_syntax

section \<open>Bytes, buffers and the errors of the gateway\<close>

text \<open>
  A Node.js \<open>Buffer\<close> is a list of bytes. Arguments of the command builders are
  JavaScript numbers; the model takes the integer-valued ones, as \<open>int\<close>. Storing a number
  into a buffer keeps its low eight bits, which is \<open>word_of_int\<close> at type \<open>8 word\<close>.
  The errors are the ones the code can raise: the two \<open>Error\<close>s of the TCP client (their
  messages are "not connected to the LCS agent" and "response timeout"), the
  \<open>RangeError\<close> of the buffer read and write methods, and the \<open>Error\<close> of
  \<open>addAgent\<close> for an id that is already registered.
\<close>

type_synonym byte = "8 word"

datatype error = NotConnected | ResponseTimeout | RangeError | AgentExists

definition STX :: byte where "STX = 0x02"
definition ETX :: byte where "ETX = 0x03"

definition HOST_ADDRESS :: "int list" where
  "HOST_ADDRESS = [0x13, 0x00, 0x00, 0x00, 0x00]"

text \<open>\<open>Buffer.from(array)\<close>: every entry is truncated to a byte.\<close>

definition Buffer_from :: "int list \<Rightarrow> byte list" where
  "Buffer_from xs = map word_of_int xs"

text \<open>
  \<open>source.copy(target, targetStart)\<close>: the bytes of the source overwrite the target
  from \<open>targetStart\<close> on, as many as fit; the target keeps its length.
\<close>

definition copy :: "byte list \<Rightarrow> byte list \<Rightarrow> nat \<Rightarrow> byte list" where
  "copy source target targetStart =
     take targetStart target
     @ take (length target - targetStart) source
     @ drop (targetStart + length source) target"

text \<open>
  \<open>buf[i]\<close> used as a number in a bitwise expression: a byte inside the buffer,
  \<open>undefined\<close> outside, which \<open><<\<close> and \<open>|\<close> read as 0.
\<close>

definition byte_num :: "byte list \<Rightarrow> nat \<Rightarrow> int" where
  "byte_num buf i = (if i < length buf then uint (buf ! i) else 0)"

text \<open>
  \<open>writeUInt16BE(value, offset)\<close> and \<open>writeUInt16LE(value, offset)\<close> raise a
  \<open>RangeError\<close> when the value is not in \<open>0..65535\<close> or the two bytes do not fit.
\<close>

definition writeUInt16BE :: "byte list \<Rightarrow> int \<Rightarrow> nat \<Rightarrow> error + byte list" where
  "writeUInt16BE buf v offset =
     (if v < 0 \<or> 65535 < v \<or> length buf < offset + 2 then Inl RangeError
      else Inr (buf[offset := word_of_int (v div 256), offset + 1 := word_of_int v]))"

definition writeUInt16LE :: "byte list \<Rightarrow> int \<Rightarrow> nat \<Rightarrow> error + byte list" where
  "writeUInt16LE buf v offset =
     (if v < 0 \<or> 65535 < v \<or> length buf < offset + 2 then Inl RangeError
      else Inr (buf[offset := word_of_int v, offset + 1 := word_of_int (v div 256)]))"

text \<open>
  \<open>readUInt16LE(offset)\<close> raises a \<open>RangeError\<close> when the offset is negative or the
  two bytes are not inside the buffer.
\<close>

definition readUInt16LE :: "byte list \<Rightarrow> int \<Rightarrow> error + nat" where
  "readUInt16LE buf offset =
     (if offset < 0 \<or> int (length buf) < offset + 2 then Inl RangeError
      else Inr (unat (buf ! nat offset) + 256 * unat (buf ! (nat offset + 1))))"

section \<open>The packet builder\<close>

subsection \<open>calculateBCC\<close>

text \<open>
  The running sum of \<open>calculateBCC\<close> (\<open>acc\<close> below) is a JavaScript number. The bitwise operators first convert
  their operand with ToInt32: the value modulo \<open>2^32\<close>, read as a signed 32-bit integer.
  \<open>>>\<close> is the arithmetic shift and \<open>~\<close> the complement of that signed value. (A number
  stays an exact integer below \<open>2^53\<close>, far above any sum of 16-bit words of a buffer.)
\<close>

definition toInt32 :: "int \<Rightarrow> int" where
  "toInt32 x = (let m = x mod 2 ^ 32 in if 2 ^ 31 \<le> m then m - 2 ^ 32 else m)"

function bcc_loop :: "byte list \<Rightarrow> nat \<Rightarrow> nat \<Rightarrow> int \<Rightarrow> int" where
  "bcc_loop data i end acc =
     (if i < end then
        (let hi = byte_num data i;
             lo = (if i + 1 < end then byte_num data (i + 1) else 0x00)
         in bcc_loop data (i + 2) end (acc + (push_bit 8 hi OR lo)))
      else acc)"
  by pat_completeness auto
termination
  by (relation "measure (\<lambda>(data, i, end, acc). end - i)") auto

declare bcc_loop.simps [simp del]

definition calculateBCC :: "byte list \<Rightarrow> nat \<Rightarrow> nat \<Rightarrow> int" where
  "calculateBCC data start end =
     (let acc = bcc_loop data start end 0;
          acc = (toInt32 acc AND 0xffff) + drop_bit 16 (toInt32 acc);
          acc = NOT (toInt32 acc) AND 0xffff
      in acc)"

subsection \<open>buildPacket and the command builders\<close>

definition buildPacket :: "int list \<Rightarrow> int \<Rightarrow> int \<Rightarrow> byte list \<Rightarrow> error + byte list" where
  "buildPacket destAddr op1 op2 data =
     (let headerSize = 18;
          totalLength = headerSize + length data;
          packet = replicate totalLength (0 :: byte);
          packet = packet[0 := STX]
      in case writeUInt16BE packet (int totalLength) 1 of
           Inl e \<Rightarrow> Inl e
         | Inr packet \<Rightarrow>
            (let packet = copy (Buffer_from destAddr) packet 3;
                 packet = copy (Buffer_from HOST_ADDRESS) packet 8;
                 packet = packet[13 := word_of_int op1];
                 packet = packet[14 := word_of_int op2];
                 packet = (if length data > 0 then copy data packet 15 else packet);
                 offset = 15 + length data;
                 bccStart = 3;
                 bccEnd = totalLength - 3;
                 bcc = calculateBCC packet bccStart bccEnd
             in case writeUInt16LE packet bcc offset of
                  Inl e \<Rightarrow> Inl e
                | Inr packet \<Rightarrow> Inr (packet[offset + 2 := ETX])))"

text \<open>
  \<open>deviceTypeMap[deviceType]\<close> is \<open>undefined\<close> for a string that is not a key of the
  map, and \<open>Buffer.from\<close> stores \<open>undefined\<close> as 0.
\<close>

definition deviceTypeMap :: "string \<Rightarrow> int option" where
  "deviceTypeMap deviceType =
     (if deviceType = ''LCS'' then Some 0x13
      else if deviceType = ''RCU4'' then Some 0x55
      else if deviceType = ''RCU8'' then Some 0x57
      else None)"

definition getLampBrightness :: "int \<Rightarrow> int \<Rightarrow> string \<Rightarrow> error + byte list" where
  "getLampBrightness masterAddr cuAddr deviceType =
     (let destAddr = [(case deviceTypeMap deviceType of Some t \<Rightarrow> t | None \<Rightarrow> 0),
                      masterAddr, cuAddr, 0x00, 0x00]
      in buildPacket destAddr 0x96 0x00 [])"

definition getLampColorTemperature :: "int \<Rightarrow> int \<Rightarrow> error + byte list" where
  "getLampColorTemperature masterAddr cuAddr =
     (let destAddr = [0x13, masterAddr, cuAddr, 0x00, 0x00]
      in buildPacket destAddr 0x96 0x06 [])"

text \<open>
  \<open>controlLampBlock\<close> allocates \<open>2 + n + 1\<close> bytes and fills them by index:
  the CU address, the number of lamps, the lamp numbers, the brightness.
\<close>

definition controlLampBlock :: "int \<Rightarrow> int \<Rightarrow> int list \<Rightarrow> int \<Rightarrow> error + byte list" where
  "controlLampBlock masterAddr cuAddr lampList brightness =
     (let destAddr = [0x13, masterAddr, cuAddr, 0x00, 0x00];
          data = [word_of_int cuAddr, word_of_int (int (length lampList))]
                 @ map word_of_int lampList @ [word_of_int brightness]
      in buildPacket destAddr 0x90 0x00 data)"

definition controlLampDimming :: "int \<Rightarrow> int \<Rightarrow> int \<Rightarrow> int \<Rightarrow> error + byte list" where
  "controlLampDimming masterAddr cuAddr lampNo brightness =
     (let destAddr = [0x13, masterAddr, cuAddr, 0x00, 0x00];
          data = Buffer_from [cuAddr, lampNo, 0x00, brightness]
      in buildPacket destAddr 0x92 0x00 data)"

definition controlLampColorTemp :: "int \<Rightarrow> int \<Rightarrow> int list \<Rightarrow> int \<Rightarrow> error + byte list" where
  "controlLampColorTemp masterAddr cuAddr lampList colorTemp =
     (let destAddr = [0x13, masterAddr, cuAddr, 0x00, 0x00];
          data = [word_of_int cuAddr, word_of_int (int (length lampList))]
                 @ map word_of_int lampList @ [word_of_int colorTemp]
      in buildPacket destAddr 0x90 0x05 data)"

definition executeScene :: "int \<Rightarrow> int \<Rightarrow> int \<Rightarrow> int \<Rightarrow> error + byte list" where
  "executeScene masterAddr cuAddr sceneNo fadeTime =
     (let destAddr = [0x13, masterAddr, cuAddr, 0x00, 0x00];
          data = Buffer_from [cuAddr, sceneNo, fadeTime]
      in buildPacket destAddr 0x91 0x00 data)"

definition controlAllLamps :: "int \<Rightarrow> int \<Rightarrow> int \<Rightarrow> error + byte list" where
  "controlAllLamps masterAddr cuAddr brightness =
     (let destAddr = [0x13, masterAddr, cuAddr, 0x00, 0x00];
          data = Buffer_from [cuAddr, brightness]
      in buildPacket destAddr 0x90 0x02 data)"

definition getDeviceName :: "error + byte list" where
  "getDeviceName = buildPacket [0x13, 0x00, 0x00, 0x00, 0x00] 0xa2 0x05 []"

section \<open>The TCP client\<close>

subsection \<open>parseResponsePacket\<close>

text \<open>
  \<open>buf[i]\<close> compared with a byte: \<open>undefined\<close> (here \<open>None\<close>) when the index is
  negative or past the end.
\<close>

definition byte_at :: "byte list \<Rightarrow> int \<Rightarrow> byte option" where
  "byte_at buf i = (if 0 \<le> i \<and> i < int (length buf) then Some (buf ! nat i) else None)"

text \<open>
  \<open>buf.slice(start, end)\<close>: a negative index counts from the end, an index past the
  end is the end, and the slice is empty when \<open>end\<close> is not after \<open>start\<close>.
\<close>

definition slice_index :: "byte list \<Rightarrow> int \<Rightarrow> nat" where
  "slice_index buf i =
     (if i < 0 then nat (max 0 (int (length buf) + i)) else min (nat i) (length buf))"

definition slice :: "byte list \<Rightarrow> int \<Rightarrow> int \<Rightarrow> byte list" where
  "slice buf start end =
     (let s = slice_index buf start; e = slice_index buf end in take (e - s) (drop s buf))"

record packetInfo =
  p_totalLength :: nat
  p_destAddr :: "byte list"
  p_srcAddr :: "byte list"
  p_op1 :: byte
  p_op2 :: byte
  p_data :: "byte list"
  p_bcc :: nat

text \<open>
  The result is \<open>Inr None\<close> for \<open>{ isComplete: false }\<close>, \<open>Inr (Some p)\<close> for a
  complete packet and \<open>Inl e\<close> when a buffer read raises.
\<close>

definition parseResponsePacket :: "byte list \<Rightarrow> error + packetInfo option" where
  "parseResponsePacket buffer =
     (if length buffer < 18 then Inr None
      else if buffer ! 0 \<noteq> 0x02 then Inr None
      else case readUInt16LE buffer 1 of
        Inl e \<Rightarrow> Inl e
      | Inr packetLength \<Rightarrow>
         (if length buffer < packetLength then Inr None
          else if byte_at buffer (int packetLength - 1) \<noteq> Some 0x03 then Inr None
          else
            (let destAddr = slice buffer 3 8;
                 srcAddr = slice buffer 8 13;
                 op1 = buffer ! 13;
                 op2 = buffer ! 14;
                 dataLength = int packetLength - 18;
                 responseData = slice buffer 15 (15 + dataLength)
             in case readUInt16LE buffer (15 + dataLength) of
                  Inl e \<Rightarrow> Inl e
                | Inr bcc \<Rightarrow>
                    Inr (Some \<lparr>p_totalLength = packetLength, p_destAddr = destAddr,
                               p_srcAddr = srcAddr, p_op1 = op1, p_op2 = op2,
                               p_data = responseData, p_bcc = bcc\<rparr>))))"

subsection \<open>The read loop of handleResponse\<close>



subsection \<open>interpretResponse\<close>

text \<open>
  The typed response. \<open>r_opCode\<close> is the number the code prints in hexadecimal;
  \<open>timestamp\<close> (the wall clock) is left out. The text of a device name (the UTF-8
  decoding of the data, NUL characters removed) is left out as well: it is a function of
  \<open>r_rawData\<close>, which the response carries. The hexadecimal text of an unknown response
  is kept as the bytes it prints.
\<close>

datatype payload =
    LampBrightness "nat list"
  | ColorTemperature "nat list"
  | LampControlAck bool
  | DeviceName
  | Unknown "byte list"

record response =
  r_opCode :: int
  r_sourceDevice :: "byte option \<times> byte option \<times> byte option"
  r_rawData :: "byte list"
  r_type :: payload


subsection \<open>The client's state, sendPacket and the socket events\<close>

text \<open>
  The state of an \<open>LCSTcpClient\<close>. Each promise returned by \<open>sendPacket\<close> for a
  connected client is named by its \<open>requestId\<close>; \<open>settled\<close> records how it was
  settled, \<open>None\<close> while it is pending. \<open>responseCallbacks\<close> holds the keys of the
  \<open>Map\<close> in insertion order: an entry carries the promise's \<open>resolve\<close> and
  \<open>reject\<close> and its 5-second timer, which is armed exactly as long as the entry exists
  (the timer's own callback and \<open>responseHandler\<close> are the only places that delete the
  entry, and the latter clears the timer). \<open>listeners\<close> are the \<open>responseHandler\<close>
  closures registered for the \<open>response\<close> event, in registration order, each named by the
  \<open>requestId\<close> it captured. \<open>written\<close> are the packets handed to
  \<open>socket.write\<close>.
\<close>

datatype outcome = Resolved response | Rejected error

record client =
  isConnected :: bool
  responseBuffer :: "byte list"
  responseCallbacks :: "nat list"
  requestId :: nat
  listeners :: "nat list"
  written :: "byte list list"
  settled :: "nat \<Rightarrow> outcome option"

definition new_client :: client where
  "new_client = \<lparr>isConnected = False, responseBuffer = [], responseCallbacks = [],
                  requestId = 0, listeners = [], written = [], settled = (\<lambda>_. None)\<rparr>"

text \<open>A promise is settled once: a later \<open>resolve\<close> or \<open>reject\<close> has no effect.\<close>

definition settle :: "nat \<Rightarrow> outcome \<Rightarrow> (nat \<Rightarrow> outcome option) \<Rightarrow> (nat \<Rightarrow> outcome option)" where
  "settle rid out s = (case s rid of None \<Rightarrow> s(rid := Some out) | Some _ \<Rightarrow> s)"

text \<open>
  \<open>sendPacket\<close>: \<open>Inl NotConnected\<close> is the promise rejected at once, \<open>Inr rid\<close> the
  pending promise of request \<open>rid\<close>.
\<close>

definition sendPacket :: "client \<Rightarrow> byte list \<Rightarrow> client \<times> (error + nat)" where
  "sendPacket st packet =
     (if \<not> isConnected st then (st, Inl NotConnected)
      else
        (let rid = requestId st + 1
         in (st\<lparr>requestId := rid,
                 responseCallbacks := responseCallbacks st @ [rid],
                 listeners := listeners st @ [rid],
                 written := written st @ [packet]\<rparr>,
             Inr rid)))"

text \<open>The timer of request \<open>rid\<close> fires after 5 seconds, if it is still armed.\<close>

definition timeout_fires :: "nat \<Rightarrow> client \<Rightarrow> client" where
  "timeout_fires rid st =
     (if rid \<in> set (responseCallbacks st) then
        st\<lparr>responseCallbacks := removeAll rid (responseCallbacks st),
            settled := settle rid (Rejected ResponseTimeout) (settled st)\<rparr>
      else st)"




text \<open>
  The socket's \<open>close\<close> event: the handler clears \<open>isConnected\<close> and emits
  \<open>disconnected\<close> (whose listeners belong to the controller and the manager).
\<close>

definition socket_close :: "client \<Rightarrow> client" where
  "socket_close st = st\<lparr>isConnected := False\<rparr>"

text \<open>The callback of \<open>socket.connect\<close>: the TCP connection is established.\<close>

definition socket_connected :: "client \<Rightarrow> client" where
  "socket_connected st = st\<lparr>isConnected := True\<rparr>"

section \<open>The controller's effects\<close>

subsection \<open>JavaScript numbers\<close>

text \<open>
  A JavaScript number is an IEEE 754 binary64 value, and every arithmetic operation returns
  the exact result rounded to the nearest such value, ties to the even significand. The
  finite values are modelled as rationals with the rounding written out: \<open>fl x\<close> keeps
  53 significant bits of \<open>x\<close> (fewer below \<open>2^-1022\<close>, where the spacing stays
  \<open>2^-1074\<close>). Overflow to \<open>Infinity\<close> (beyond \<open>1.8e308\<close>) is not modelled.
  \<open>Math.round\<close> is exact: the nearest integer, a tie going up.
\<close>

fun ilog2 :: "nat \<Rightarrow> nat" where
  "ilog2 n = (if n < 2 then 0 else Suc (ilog2 (n div 2)))"

declare ilog2.simps [simp del]

text \<open>\<open>exponent x\<close> is the integer \<open>e\<close> with \<open>2^e \<le> |x| < 2^(e+1)\<close>, for \<open>x \<noteq> 0\<close>.\<close>

definition exponent :: "rat \<Rightarrow> int" where
  "exponent x =
     (let a = \<bar>x\<bar>
      in if 1 \<le> a then int (ilog2 (nat \<lfloor>a\<rfloor>))
         else (let c = ilog2 (nat \<lfloor>1 / a\<rfloor>)
               in if a * 2 ^ c = 1 then - int c else - int c - 1))"

definition pow2 :: "int \<Rightarrow> rat" where
  "pow2 e = (if 0 \<le> e then 2 ^ nat e else 1 / 2 ^ nat (- e))"

definition round_half_even :: "rat \<Rightarrow> int" where
  "round_half_even x =
     (let f = \<lfloor>x\<rfloor>; d = x - of_int f
      in if d < 1 / 2 then f
         else if 1 / 2 < d then f + 1
         else if even f then f else f + 1)"

definition fl :: "rat \<Rightarrow> rat" where
  "fl x =
     (if x = 0 then 0
      else (let q = pow2 (max (exponent x) (- 1022) - 52)
            in of_int (round_half_even (x / q)) * q))"

definition js_add :: "rat \<Rightarrow> rat \<Rightarrow> rat" where "js_add a b = fl (a + b)"
definition js_sub :: "rat \<Rightarrow> rat \<Rightarrow> rat" where "js_sub a b = fl (a - b)"
definition js_mul :: "rat \<Rightarrow> rat \<Rightarrow> rat" where "js_mul a b = fl (a * b)"
definition js_div :: "rat \<Rightarrow> rat \<Rightarrow> rat" where "js_div a b = fl (a / b)"

definition Math_round :: "rat \<Rightarrow> int" where
  "Math_round x = \<lfloor>x + 1 / 2\<rfloor>"

subsection \<open>fadeControl and waveEffect\<close>

text \<open>
  What an effect does is the sequence of its calls of \<open>this.controlLamp(masterAddr, cuAddr,
  lampNo, brightness)\<close> and of its sleeps (\<open>setTimeout\<close>, in milliseconds). Each call is
  awaited: it returns when the agent has answered, or throws (not connected, response
  timeout), and then the effect ends with that error. \<open>env k\<close> is what the \<open>k\<close>-th call
  of the effect does: \<open>None\<close> when it returns, \<open>Some e\<close> when it throws \<open>e\<close>. The
  brightness arguments are taken as integers (a brightness is a whole percentage).
  \<open>online\<close> is the controller's \<open>isConnected\<close> when the effect starts.
\<close>

datatype action = ControlLamp int int int int | Sleep rat

function fade_loop ::
  "(nat \<Rightarrow> error option) \<Rightarrow> int \<Rightarrow> int \<Rightarrow> int \<Rightarrow> rat \<Rightarrow> rat \<Rightarrow> rat \<Rightarrow> nat \<Rightarrow> nat
     \<Rightarrow> action list \<times> error option" where
  "fade_loop env masterAddr cuAddr lampNo startBrightness stepSize stepDuration steps i =
     (if i \<le> steps then
        (let currentBrightness = Math_round (js_add startBrightness (js_mul stepSize (of_nat i)));
             call = ControlLamp masterAddr cuAddr lampNo currentBrightness
         in case env i of
              Some e \<Rightarrow> ([call], Some e)
            | None \<Rightarrow>
               (case fade_loop env masterAddr cuAddr lampNo startBrightness stepSize
                       stepDuration steps (i + 1) of
                  (trace, err) \<Rightarrow>
                    (call # (if i < steps then [Sleep stepDuration] else []) @ trace, err)))
      else ([], None))"
  by pat_completeness auto
termination
  by (relation "measure (\<lambda>(env, m, c, l, s, sz, sd, steps, i). Suc steps - i)") auto

declare fade_loop.simps [simp del]

definition fadeControl ::
  "bool \<Rightarrow> (nat \<Rightarrow> error option) \<Rightarrow> int \<Rightarrow> int \<Rightarrow> int \<Rightarrow> int \<Rightarrow> int \<Rightarrow> int
     \<Rightarrow> action list \<times> error option" where
  "fadeControl online env masterAddr cuAddr lampNo startBrightness endBrightness duration =
     (if \<not> online then ([], Some NotConnected)
      else
        (let steps = 20;
             stepDuration = js_div (js_mul (of_int duration) 1000) (of_nat steps);
             stepSize = js_div (js_sub (of_int endBrightness) (of_int startBrightness))
                          (of_nat steps)
         in fade_loop env masterAddr cuAddr lampNo (of_int startBrightness) stepSize
              stepDuration steps 0))"

fun wave_loop ::
  "(nat \<Rightarrow> error option) \<Rightarrow> int \<Rightarrow> int \<Rightarrow> int \<Rightarrow> rat \<Rightarrow> nat \<Rightarrow> int list
     \<Rightarrow> action list \<times> error option" where
  "wave_loop env masterAddr cuAddr brightness interval k [] = ([], None)"
| "wave_loop env masterAddr cuAddr brightness interval k (lampNo # lampList) =
     (let call = ControlLamp masterAddr cuAddr lampNo brightness
      in case env k of
           Some e \<Rightarrow> ([call], Some e)
         | None \<Rightarrow>
            (case wave_loop env masterAddr cuAddr brightness interval (k + 1) lampList of
               (trace, err) \<Rightarrow> (call # Sleep interval # trace, err)))"

definition waveEffect ::
  "bool \<Rightarrow> (nat \<Rightarrow> error option) \<Rightarrow> int \<Rightarrow> int \<Rightarrow> int list \<Rightarrow> int \<Rightarrow> rat
     \<Rightarrow> action list \<times> error option" where
  "waveEffect online env masterAddr cuAddr lampList brightness interval =
     (if \<not> online then ([], Some NotConnected)
      else wave_loop env masterAddr cuAddr brightness interval 0 lampList)"

section \<open>The agent manager\<close>

text \<open>
  \<open>agents\<close> is a JavaScript \<open>Map\<close>, which iterates in insertion order: an association
  list with the newest key last. A controller is kept as the fields \<open>addAgent\<close> sets.
  \<open>defaultAgentId\<close> is \<open>null\<close> (here \<open>None\<close>) or an id.
\<close>

record controller =
  c_name :: string
  c_host :: string
  c_port :: int

record manager =
  agents :: "(string \<times> controller) list"
  defaultAgentId :: "string option"

definition new_manager :: manager where
  "new_manager = \<lparr>agents = [], defaultAgentId = None\<rparr>"

text \<open>
  \<open>addAgent\<close> up to the point where it waits for the connection (its return value is
  whether the connection succeeded). \<open>name || ...\<close> and \<open>!this.defaultAgentId\<close> test
  truthiness: \<open>null\<close> and the empty string are both falsy.
\<close>

definition addAgent :: "manager \<Rightarrow> string \<Rightarrow> string \<Rightarrow> int \<Rightarrow> string option \<Rightarrow> error + manager" where
  "addAgent mgr agentId host port name =
     (if agentId \<in> fst ` set (agents mgr) then Inl AgentExists
      else
        (let ctl = \<lparr>c_name = (case name of
                                 None \<Rightarrow> ''Agent-'' @ agentId
                               | Some n \<Rightarrow> if n = [] then ''Agent-'' @ agentId else n),
                    c_host = host, c_port = port\<rparr>;
             agents' = agents mgr @ [(agentId, ctl)];
             default' = (case defaultAgentId mgr of
                           None \<Rightarrow> Some agentId
                         | Some d \<Rightarrow> if d = [] then Some agentId else Some d)
         in Inr \<lparr>agents = agents', defaultAgentId = default'\<rparr>))"

definition removeAgent :: "manager \<Rightarrow> string \<Rightarrow> manager \<times> bool" where
  "removeAgent mgr agentId =
     (case map_of (agents mgr) agentId of
        None \<Rightarrow> (mgr, False)
      | Some ctl \<Rightarrow>
         (let agents' = filter (\<lambda>(k, c). k \<noteq> agentId) (agents mgr);
              default' =
                (if defaultAgentId mgr = Some agentId then
                   (let remainingAgents = map fst agents'
                    in case remainingAgents of [] \<Rightarrow> None | first # _ \<Rightarrow> Some first)
                 else defaultAgentId mgr)
          in (\<lparr>agents = agents', defaultAgentId = default'\<rparr>, True)))"

definition setDefaultAgent :: "manager \<Rightarrow> string \<Rightarrow> manager \<times> bool" where
  "setDefaultAgent mgr agentId =
     (if agentId \<in> fst ` set (agents mgr) then (mgr\<lparr>defaultAgentId := Some agentId\<rparr>, True)
      else (mgr, False))"

section \<open>A caller that awaits each response\<close>






subsection \<open>Packets of the scenarios\<close>

text \<open>
  Two requests, the frames of \<open>controlLampDimming(1, 1, 5, 80)\<close> and
  \<open>controlLampDimming(1, 1, 6, 80)\<close>, and two replies of the agent at address (1, 1) as
  \<open>parseResponsePacket\<close> reads them (length little-endian): a lamp control
  acknowledgement with result byte 0 (success) and one with result byte 1 (failed).
\<close>

definition dim5_packet :: "byte list" where
  "dim5_packet = [0x02, 0x00, 0x16, 0x13, 0x01, 0x01, 0x00, 0x00, 0x13, 0x00, 0x00, 0x00, 0x00,
                  0x92, 0x00, 0x01, 0x05, 0x00, 0x50, 0x96, 0x58, 0x03]"

definition dim6_packet :: "byte list" where
  "dim6_packet = [0x02, 0x00, 0x16, 0x13, 0x01, 0x01, 0x00, 0x00, 0x13, 0x00, 0x00, 0x00, 0x00,
                  0x92, 0x00, 0x01, 0x06, 0x00, 0x50, 0x95, 0x58, 0x03]"







text \<open>
  A client that has connected and sent two, and three, requests without any reply yet.
\<close>

definition two_pending :: client where
  "two_pending =
     fst (sendPacket (fst (sendPacket (socket_connected new_client) dim5_packet)) dim6_packet)"

definition three_pending :: client where
  "three_pending = fst (sendPacket two_pending dim5_packet)"


section \<open>Traces and registries of the scenarios\<close>

text \<open>The brightness arguments of the \<open>controlLamp\<close> calls of a trace, in order.\<close>

fun brightness_values :: "action list \<Rightarrow> int list" where
  "brightness_values [] = []"
| "brightness_values (ControlLamp masterAddr cuAddr lampNo brightness # trace) =
     brightness # brightness_values trace"
| "brightness_values (Sleep ms # trace) = brightness_values trace"

text \<open>\<open>env\<close> when the agent answers every call.\<close>

definition all_acknowledged :: "nat \<Rightarrow> error option" where
  "all_acknowledged k = None"

text \<open>
  A manager after \<open>addAgent("a", ...)\<close> and \<open>addAgent("b", ...)\<close>; \<open>projr\<close> takes
  the manager out of a call that did not throw.
\<close>

definition agents_a_b :: manager where
  "agents_a_b =
     projr (addAgent (projr (addAgent new_manager ''a'' ''10.0.0.1'' 1000 None))
              ''b'' ''10.0.0.2'' 1000 None)"

section \<open>The checksum as the specification words it\<close>

text \<open>
  The BCC contract of the specification, written from its words and independently of the
  code: the byte range is read as 16-bit big-endian words, the low byte of the last word being
  zero when the range has odd length; the words are summed modulo \<open>2^32\<close>; the high 16
  bits are folded into the low 16; the result is the one's complement, truncated to 16 bits.
\<close>

fun bcc_words :: "byte list \<Rightarrow> int list" where
  "bcc_words [] = []"
| "bcc_words [hi] = [uint hi * 256]"
| "bcc_words (hi # lo # rest) = (uint hi * 256 + uint lo) # bcc_words rest"

definition bcc_spec :: "byte list \<Rightarrow> int" where
  "bcc_spec bytes =
     (let s = sum_list (bcc_words bytes) mod 2 ^ 32;
          folded = s mod 2 ^ 16 + s div 2 ^ 16
      in (2 ^ 16 - 1 - folded) mod 2 ^ 16)"

section \<open>Properties of the packet builder\<close>

subsection \<open>calculateBCC computes the checksum of the specification\<close>

lemma and_ffff: "(x::int) AND 0xffff = x mod 65536"
proof -
  have "x AND mask 16 = take_bit 16 x" by (simp add: take_bit_eq_mask)
  then show ?thesis by (simp add: take_bit_eq_mod mask_eq_exp_minus_1)
qed

lemma shift_or:
  assumes "0 \<le> lo" "lo < 256"
  shows "push_bit 8 (hi::int) OR lo = hi * 256 + lo"
proof -
  have lo: "take_bit 8 lo = lo" using assms by (simp add: take_bit_int_eq_self)
  have "push_bit 8 hi + take_bit 8 lo = push_bit 8 hi OR take_bit 8 lo"
    by (rule disjunctive_add) (simp add: bit_push_bit_iff bit_take_bit_iff)
  then show ?thesis by (simp add: lo push_bit_eq_mult)
qed

lemma byte_num_bounds: "0 \<le> byte_num data i \<and> byte_num data i < 256"
proof -
  have "uint (data ! i) < 256" using uint_lt2p [of "data ! i"] by simp
  then show ?thesis by (simp add: byte_num_def)
qed

lemma bcc_loop_done: "\<not> i < end \<Longrightarrow> bcc_loop data i end acc = acc"
  by (subst bcc_loop.simps) simp

lemma bcc_loop_step:
  "i < end \<Longrightarrow> bcc_loop data i end acc =
     bcc_loop data (i + 2) end
       (acc + (push_bit 8 (byte_num data i) OR (if i + 1 < end then byte_num data (i + 1) else 0)))"
  by (subst bcc_loop.simps) (simp add: Let_def)

lemma bcc_loop_words:
  "end \<le> length data \<Longrightarrow>
   bcc_loop data i end acc = acc + sum_list (bcc_words (take (end - i) (drop i data)))"
proof (induction data i "end" acc rule: bcc_loop.induct)
  case (1 data i end' acc)
  show ?case
  proof (cases "i < end'")
    case False
    then show ?thesis by (simp add: bcc_loop_done)
  next
    case True
    note lt = True
    have i_in: "i < length data" using lt "1.prems" by simp
    show ?thesis
    proof (cases "i + 1 < end'")
      case True
      have i1_in: "i + 1 < length data" using True "1.prems" by simp
      have split: "take (end' - i) (drop i data)
          = data ! i # data ! (i + 1) # take (end' - (i + 2)) (drop (i + 2) data)"
      proof -
        have "drop i data = data ! i # drop (Suc i) data"
          using i_in by (simp add: Cons_nth_drop_Suc)
        moreover have "drop (Suc i) data = data ! (i + 1) # drop (i + 2) data"
          using i1_in by (simp add: Cons_nth_drop_Suc)
        moreover have "end' - i = Suc (Suc (end' - (i + 2)))" using True by simp
        ultimately show ?thesis by simp
      qed
      have ih: "bcc_loop data (i + 2) end' (acc + (push_bit 8 (byte_num data i) OR byte_num data (i + 1)))
          = acc + (push_bit 8 (byte_num data i) OR byte_num data (i + 1))
            + sum_list (bcc_words (take (end' - (i + 2)) (drop (i + 2) data)))"
        using "1.IH" [OF lt refl refl "1.prems"] True by simp
      have w: "push_bit 8 (byte_num data i) OR byte_num data (i + 1)
          = uint (data ! i) * 256 + uint (data ! (i + 1))"
        using byte_num_bounds [of data "i + 1"] i_in i1_in
        by (simp add: shift_or byte_num_def)
      show ?thesis
        using lt True ih w
        by (simp add: bcc_loop_step split)
    next
      case False
      then have e: "end' = i + 1" using lt by simp
      have split: "take (end' - i) (drop i data) = [data ! i]"
        using i_in e by (simp add: take_Suc_conv_app_nth Cons_nth_drop_Suc [symmetric])
      show ?thesis
        using lt False i_in
        by (simp add: bcc_loop_step bcc_loop_done split push_bit_eq_mult byte_num_def)
    qed
  qed
qed

lemma toInt32_cases: "toInt32 x = x mod 2 ^ 32 \<or> toInt32 x = x mod 2 ^ 32 - 2 ^ 32"
  by (simp add: toInt32_def Let_def)


lemma toInt32_mod16: "toInt32 x mod 65536 = x mod 65536"
proof -
  have a: "(x mod 4294967296) mod 65536 = x mod 65536"
    by (rule mod_mod_cancel) simp
  have b: "(x mod 4294967296 - 4294967296) mod 65536 = (x mod 4294967296) mod 65536"
    using mod_mult_self1 [of "x mod 4294967296" "- 65536" 65536] by simp
  show ?thesis using toInt32_cases [of x] a b by auto
qed



lemma toInt32_fold_mod16:
  "(toInt32 x mod 65536 + toInt32 x div 65536) mod 65536
   = ((x mod 4294967296) mod 65536 + (x mod 4294967296) div 65536) mod 65536"
proof -
  define m where "m = x mod 4294967296"
  have tm: "toInt32 x mod 65536 = m mod 65536"
    unfolding m_def using toInt32_mod16 [of x] mod_mod_cancel [of 65536 4294967296 x] by simp
  from toInt32_cases [of x] have "toInt32 x = m \<or> toInt32 x = m - 4294967296"
    by (simp add: m_def)
  then have "(toInt32 x mod 65536 + toInt32 x div 65536) mod 65536
      = (m mod 65536 + m div 65536) mod 65536"
  proof
    assume "toInt32 x = m"
    then show ?thesis by simp
  next
    assume t: "toInt32 x = m - 4294967296"
    have d: "(m - 4294967296) div 65536 = m div 65536 - 65536"
      using div_mult_self1 [of 65536 m "- 65536"] by simp
    have "(m mod 65536 + (m div 65536 - 65536)) mod 65536
        = (m mod 65536 + m div 65536 + (- 1) * 65536) mod 65536"
      by (simp add: algebra_simps)
    also have "\<dots> = (m mod 65536 + m div 65536) mod 65536"
      by (rule mod_mult_self1)
    finally have "(m mod 65536 + (m div 65536 - 65536)) mod 65536
        = (m mod 65536 + m div 65536) mod 65536" .
    then show ?thesis using tm by (simp only: t d)
  qed
  then show ?thesis by (simp only: m_def)
qed

lemma complement_mod16:
  assumes "(a::int) mod 65536 = b mod 65536"
  shows "(- a - 1) mod 65536 = (65535 - b) mod 65536"
proof -
  have "(- a) mod 65536 = (- b) mod 65536" using assms by (metis mod_minus_eq)
  then have "(- a - 1) mod 65536 = (- b - 1) mod 65536" by (metis mod_diff_left_eq)
  also have "\<dots> = (- b - 1 + 1 * 65536) mod 65536" by (simp only: mod_mult_self1)
  also have "- b - 1 + 1 * 65536 = 65535 - b" by simp
  finally show ?thesis .
qed

lemma js_fold_spec:
  "NOT (toInt32 ((toInt32 x AND 0xffff) + drop_bit 16 (toInt32 x))) AND 0xffff
   = (65535 - ((x mod 4294967296) mod 65536 + (x mod 4294967296) div 65536)) mod 65536"
proof -
  define f where "f = toInt32 x mod 65536 + toInt32 x div 65536"
  define g where "g = (x mod 4294967296) mod 65536 + (x mod 4294967296) div 65536"
  have e1: "(toInt32 x AND 0xffff) + drop_bit 16 (toInt32 x) = f"
    unfolding f_def by (simp only: and_ffff drop_bit_eq_div) simp
  have e2: "NOT (toInt32 f) AND 0xffff = (- toInt32 f - 1) mod 65536"
    by (simp only: and_ffff not_int_def)
  have "toInt32 f mod 65536 = f mod 65536" by (rule toInt32_mod16)
  also have "\<dots> = g mod 65536" unfolding f_def g_def by (rule toInt32_fold_mod16)
  finally have "(- toInt32 f - 1) mod 65536 = (65535 - g) mod 65536"
    by (rule complement_mod16)
  then show ?thesis by (simp only: e1 e2 g_def)
qed

lemma calculateBCC_spec:
  "end \<le> length data \<Longrightarrow> calculateBCC data start end = bcc_spec (take (end - start) (drop start data))"
proof -
  assume le: "end \<le> length data"
  have p: "(2::int) ^ 32 = 4294967296" "(2::int) ^ 16 = 65536" "(65536::int) - 1 = 65535" by simp_all
  show ?thesis
    unfolding calculateBCC_def bcc_spec_def Let_def
    by (simp only: bcc_loop_words [OF le] js_fold_spec p add_0)
qed


subsection \<open>The packet that buildPacket returns\<close>

lemma length_copy: "targetStart \<le> length target \<Longrightarrow> length (copy source target targetStart) = length target"
  by (simp add: copy_def)

lemma calculateBCC_range: "0 \<le> calculateBCC data start end \<and> calculateBCC data start end \<le> 65535"
  by (simp add: calculateBCC_def Let_def AND_upper2 and_nonnegative_int_iff)



lemma copy_at:
  "length a = off \<Longrightarrow> length s \<le> length b \<Longrightarrow> copy s (a @ b) off = a @ s @ drop (length s) b"
  by (simp add: copy_def)

lemma update_at: "length a = k \<Longrightarrow> (a @ x # b)[k := v] = a @ v # b"
  by (simp add: list_update_append)

lemma buildPacket_RangeError:
  "65517 < length data \<Longrightarrow> buildPacket destAddr op1 op2 data = Inl RangeError"
  by (simp add: buildPacket_def Let_def writeUInt16BE_def)

lemma buildPacket_layout:
  assumes D: "length destAddr = 5" and n: "length data \<le> 65517"
  shows "buildPacket destAddr op1 op2 data =
     Inr ([STX, word_of_int (int (18 + length data) div 256), word_of_int (int (18 + length data))]
          @ (Buffer_from destAddr @ Buffer_from HOST_ADDRESS
             @ [word_of_int op1, word_of_int op2] @ data)
          @ [word_of_int (bcc_spec (Buffer_from destAddr @ Buffer_from HOST_ADDRESS
                                     @ [word_of_int op1, word_of_int op2] @ data)),
             word_of_int (bcc_spec (Buffer_from destAddr @ Buffer_from HOST_ADDRESS
                                     @ [word_of_int op1, word_of_int op2] @ data) div 256),
             ETX])"
proof -
  let ?n = "length data"
  let ?h = "word_of_int (int (18 + ?n) div 256) :: byte"
  let ?l = "word_of_int (int (18 + ?n)) :: byte"
  let ?DB = "Buffer_from destAddr"
  let ?HB = "Buffer_from HOST_ADDRESS"
  let ?o1 = "word_of_int op1 :: byte"
  let ?o2 = "word_of_int op2 :: byte"
  let ?body = "?DB @ ?HB @ [?o1, ?o2] @ data"
  let ?bcc = "bcc_spec ?body"
  let ?q1 = "[STX, ?h, ?l] @ replicate (15 + ?n) 0"
  let ?q4 = "([STX, ?h, ?l] @ ?DB @ ?HB @ [?o1, ?o2]) @ replicate (3 + ?n) 0"
  let ?q = "[STX, ?h, ?l] @ ?body @ [0, 0, 0]"
  let ?q' = "([STX, ?h, ?l] @ ?body) @ [word_of_int ?bcc, word_of_int (?bcc div 256), 0]"
  have lD: "length ?DB = 5" by (simp add: Buffer_from_def D)
  have lH: "length ?HB = 5" by (simp add: Buffer_from_def HOST_ADDRESS_def)
  have r0: "replicate (18 + ?n) (0::byte) = 0 # 0 # 0 # replicate (15 + ?n) 0"
  proof -
    have "18 + ?n = Suc (Suc (Suc (15 + ?n)))" by simp
    then show ?thesis by (simp only: replicate_Suc)
  qed
  have w1: "writeUInt16BE ((replicate (18 + ?n) 0)[0 := STX]) (int (18 + ?n)) 1 = Inr ?q1"
    using n unfolding r0 by (simp add: writeUInt16BE_def)
  have c1: "copy ?DB ([STX, ?h, ?l] @ replicate (15 + ?n) 0) 3 = [STX, ?h, ?l] @ ?DB @ replicate (10 + ?n) 0"
    by (subst copy_at) (simp_all add: lD)
  have c2: "copy ?HB (([STX, ?h, ?l] @ ?DB) @ replicate (10 + ?n) 0) 8
      = ([STX, ?h, ?l] @ ?DB) @ ?HB @ replicate (5 + ?n) 0"
    by (subst copy_at) (simp_all add: lD lH)
  have r5: "replicate (5 + ?n) (0::byte) = 0 # 0 # replicate (3 + ?n) 0"
  proof -
    have "5 + ?n = Suc (Suc (3 + ?n))" by simp
    then show ?thesis by (simp only: replicate_Suc)
  qed
  have u1: "(([STX, ?h, ?l] @ ?DB @ ?HB) @ 0 # 0 # replicate (3 + ?n) 0)[13 := ?o1]
      = ([STX, ?h, ?l] @ ?DB @ ?HB) @ ?o1 # 0 # replicate (3 + ?n) 0"
    by (rule update_at) (simp add: lD lH)
  have u2: "(([STX, ?h, ?l] @ ?DB @ ?HB @ [?o1]) @ 0 # replicate (3 + ?n) 0)[14 := ?o2]
      = ([STX, ?h, ?l] @ ?DB @ ?HB @ [?o1]) @ ?o2 # replicate (3 + ?n) 0"
    by (rule update_at) (simp add: lD lH)
  have q4: "(copy ?HB (copy ?DB ?q1 3) 8)[13 := ?o1, 14 := ?o2] = ?q4"
    using c1 c2 u1 u2 by (simp add: r5)
  have dr: "drop ?n (replicate (3 + ?n) (0::byte)) = [0, 0, 0]"
  proof -
    have "drop ?n (replicate (3 + ?n) (0::byte)) = replicate 3 0" by simp
    then show ?thesis by (simp add: numeral_3_eq_3)
  qed
  have c3: "(if 0 < ?n then copy data ?q4 15 else ?q4) = ?q"
  proof -
    have "copy data ?q4 15 = ([STX, ?h, ?l] @ ?DB @ ?HB @ [?o1, ?o2]) @ data @ drop ?n (replicate (3 + ?n) 0)"
      by (subst copy_at) (simp_all add: lD lH)
    with dr have "copy data ?q4 15 = ?q" by simp
    moreover have "?n = 0 \<Longrightarrow> ?q4 = ?q"
      using dr by simp
    ultimately show ?thesis by simp
  qed
  have lb: "length ?body = 12 + ?n" by (simp add: lD lH)
  have lq: "length ?q = 18 + ?n" by (simp add: lD lH)
  have bcc: "calculateBCC ?q 3 (18 + ?n - 3) = ?bcc"
  proof -
    have "take (15 + ?n - 3) (drop 3 ?q) = ?body" by (simp add: lD lH)
    then show ?thesis using calculateBCC_spec [of "15 + ?n" ?q 3] lq by simp
  qed
  have rng: "0 \<le> ?bcc \<and> ?bcc \<le> 65535"
    using calculateBCC_range [of ?q 3 "18 + ?n - 3"] by (simp only: bcc)
  have w2: "writeUInt16LE ?q ?bcc (15 + ?n) = Inr ?q'"
  proof -
    have "?q[15 + ?n := word_of_int ?bcc] = ([STX, ?h, ?l] @ ?body) @ [word_of_int ?bcc, 0, 0]"
      by (simp add: list_update_append lD lH)
    moreover have "(([STX, ?h, ?l] @ ?body @ [word_of_int ?bcc]) @ [0, 0])[15 + ?n + 1 := word_of_int (?bcc div 256)]
        = ([STX, ?h, ?l] @ ?body @ [word_of_int ?bcc]) @ [word_of_int (?bcc div 256), 0]"
      by (rule update_at) (simp add: lD lH)
    ultimately show ?thesis using rng lq by (simp add: writeUInt16LE_def)
  qed
  have u3: "?q'[15 + ?n + 2 := ETX]
      = [STX, ?h, ?l] @ ?body @ [word_of_int ?bcc, word_of_int (?bcc div 256), ETX]"
  proof -
    have "(([STX, ?h, ?l] @ ?body @ [word_of_int ?bcc, word_of_int (?bcc div 256)]) @ [0])[15 + ?n + 2 := ETX]
      = ([STX, ?h, ?l] @ ?body @ [word_of_int ?bcc, word_of_int (?bcc div 256)]) @ [ETX]"
      by (rule update_at) (simp add: lD lH)
    then show ?thesis by simp
  qed
  show ?thesis
    unfolding buildPacket_def Let_def
    by (simp only: w1 q4 c3 bcc w2 u3 sum.case)
qed

lemma buildPacket_unfold:
  "buildPacket destAddr op1 op2 data =
     (case writeUInt16BE ((replicate (18 + length data) 0)[0 := STX]) (int (18 + length data)) 1 of
        Inl e \<Rightarrow> Inl e
      | Inr q1 \<Rightarrow>
          (let q4 = (copy (Buffer_from HOST_ADDRESS) (copy (Buffer_from destAddr) q1 3) 8)
                      [13 := word_of_int op1, 14 := word_of_int op2];
               q = (if length data > 0 then copy data q4 15 else q4)
           in case writeUInt16LE q (calculateBCC q 3 (15 + length data)) (15 + length data) of
                Inl e \<Rightarrow> Inl e
              | Inr q' \<Rightarrow> Inr (q'[17 + length data := ETX])))"
  unfolding buildPacket_def Let_def
  by (simp add: add.commute cong: sum.case_cong)

lemma buildPacket_result:
  assumes "buildPacket destAddr op1 op2 data = Inr p"
  obtains q where "length q = 18 + length data"
    and "p = q[15 + length data := word_of_int (calculateBCC q 3 (15 + length data)),
               16 + length data := word_of_int (calculateBCC q 3 (15 + length data) div 256),
               17 + length data := ETX]"
proof -
  define n where "n = length data"
  define q0 where "q0 = (replicate (18 + n) (0::byte))[0 := STX]"
  obtain q1 where w: "writeUInt16BE q0 (int (18 + n)) 1 = Inr q1"
    using assms unfolding buildPacket_unfold q0_def n_def by (auto split: sum.splits)
  have len1: "length q1 = 18 + n"
    using w by (auto simp: writeUInt16BE_def q0_def split: if_splits)
  define q4 where "q4 = (copy (Buffer_from HOST_ADDRESS) (copy (Buffer_from destAddr) q1 3) 8)
                      [13 := word_of_int op1, 14 := word_of_int op2]"
  define q where "q = (if n > 0 then copy data q4 15 else q4)"
  have len: "length q = 18 + n"
    by (simp add: q_def q4_def len1 length_copy)
  have wle: "writeUInt16LE q (calculateBCC q 3 (15 + n)) (15 + n)
      = Inr (q[15 + n := word_of_int (calculateBCC q 3 (15 + n)),
               16 + n := word_of_int (calculateBCC q 3 (15 + n) div 256)])"
    using calculateBCC_range [of q 3 "15 + n"] len
    by (simp add: writeUInt16LE_def add.commute)
  have "(case writeUInt16LE q (calculateBCC q 3 (15 + n)) (15 + n) of
           Inl e \<Rightarrow> Inl e | Inr q' \<Rightarrow> Inr (q'[17 + n := ETX])) = Inr p"
    using assms w unfolding buildPacket_unfold Let_def q_def q4_def q0_def n_def by simp
  then have "p = q[15 + n := word_of_int (calculateBCC q 3 (15 + n)),
               16 + n := word_of_int (calculateBCC q 3 (15 + n) div 256), 17 + n := ETX]"
    by (simp only: wle sum.case) simp
  with len show ?thesis using that by (simp add: n_def)
qed

lemma dimming_frame:
  "controlLampDimming 1 1 5 80 =
     Inr [0x02, 0x00, 0x16, 0x13, 0x01, 0x01, 0x00, 0x00, 0x13, 0x00, 0x00, 0x00, 0x00,
          0x92, 0x00, 0x01, 0x05, 0x00, 0x50, 0x96, 0x58, 0x03]"
  by code_simp


subsection \<open>Claim C2: the BCC field of an encoded frame\<close>

text \<open>
  Claim C2, as it holds on the code. Whenever \<open>buildPacket\<close> returns a packet, the packet
  has \<open>18 + len(Data)\<close> bytes and its BCC field, the two bytes after the data, holds the
  checksum of the specification over exactly the bytes \<open>[3, 15 + len(Data))\<close> of that
  packet (destination address up to and including all data), low byte first. The frame of
  \<open>controlLampDimming(1, 1, 5, 80)\<close> has 22 bytes; its checksum is \<open>0x5896\<close> and
  its bytes 19 and 20 are \<open>96 58\<close>.
\<close>

theorem bcc_field_of_buildPacket:
  "(buildPacket destAddr op1 op2 data = Inr p \<longrightarrow>
      length p = 18 + length data
      \<and> p ! (15 + length data) = word_of_int (bcc_spec (take (12 + length data) (drop 3 p)))
      \<and> p ! (16 + length data) = word_of_int (bcc_spec (take (12 + length data) (drop 3 p)) div 256))
   \<and> controlLampDimming 1 1 5 80 =
       Inr [0x02, 0x00, 0x16, 0x13, 0x01, 0x01, 0x00, 0x00, 0x13, 0x00, 0x00, 0x00, 0x00,
            0x92, 0x00, 0x01, 0x05, 0x00, 0x50, 0x96, 0x58, 0x03]
   \<and> bcc_spec [0x13, 0x01, 0x01, 0x00, 0x00, 0x13, 0x00, 0x00, 0x00, 0x00,
                0x92, 0x00, 0x01, 0x05, 0x00, 0x50] = 0x5896"
proof (intro conjI impI)
  assume bp: "buildPacket destAddr op1 op2 data = Inr p"
  let ?n = "length data"
  from bp obtain q where lq: "length q = 18 + ?n"
    and p: "p = q[15 + ?n := word_of_int (calculateBCC q 3 (15 + ?n)),
               16 + ?n := word_of_int (calculateBCC q 3 (15 + ?n) div 256),
               17 + ?n := ETX]"
    by (rule buildPacket_result)
  have rng: "take (12 + ?n) (drop 3 p) = take (12 + ?n) (drop 3 q)"
    unfolding p by (simp add: drop_update_swap)
  have bcc: "calculateBCC q 3 (15 + ?n) = bcc_spec (take (12 + ?n) (drop 3 q))"
    using calculateBCC_spec [of "15 + ?n" q 3] lq by simp
  show "length p = 18 + ?n" by (simp add: p lq)
  show "p ! (15 + ?n) = word_of_int (bcc_spec (take (12 + ?n) (drop 3 p)))"
    by (simp add: rng bcc [symmetric]) (simp add: p lq)
  show "p ! (16 + ?n) = word_of_int (bcc_spec (take (12 + ?n) (drop 3 p)) div 256)"
    by (simp add: rng bcc [symmetric]) (simp add: p lq)
next
  show "controlLampDimming 1 1 5 80 =
       Inr [0x02, 0x00, 0x16, 0x13, 0x01, 0x01, 0x00, 0x00, 0x13, 0x00, 0x00, 0x00, 0x00,
            0x92, 0x00, 0x01, 0x05, 0x00, 0x50, 0x96, 0x58, 0x03]"
    by code_simp
next
  show "bcc_spec [0x13, 0x01, 0x01, 0x00, 0x00, 0x13, 0x00, 0x00, 0x00, 0x00,
                0x92, 0x00, 0x01, 0x05, 0x00, 0x50] = 0x5896"
    by code_simp
qed

theorem bcc_field_of_buildPacket_witness:
  "buildPacket [0x13, 1, 1, 0, 0] 0x92 0x00 [0x01, 0x05, 0x00, 0x50]
     = Inr [0x02, 0x00, 0x16, 0x13, 0x01, 0x01, 0x00, 0x00, 0x13, 0x00, 0x00, 0x00, 0x00,
            0x92, 0x00, 0x01, 0x05, 0x00, 0x50, 0x96, 0x58, 0x03]
   \<and> [0x02, 0x00, 0x16, 0x13, 0x01, 0x01, 0x00, 0x00, 0x13, 0x00, 0x00, 0x00, 0x00,
            0x92, 0x00, 0x01, 0x05, 0x00, 0x50, 0x96, 0x58, 0x03 :: byte] ! 19
       = word_of_int (bcc_spec [0x13, 0x01, 0x01, 0x00, 0x00, 0x13, 0x00, 0x00, 0x00, 0x00,
                0x92, 0x00, 0x01, 0x05, 0x00, 0x50])"
proof -
  have b: "buildPacket [0x13, 1, 1, 0, 0] 0x92 0x00 [0x01, 0x05, 0x00, 0x50]
     = Inr [0x02, 0x00, 0x16, 0x13, 0x01, 0x01, 0x00, 0x00, 0x13, 0x00, 0x00, 0x00, 0x00,
            0x92, 0x00, 0x01, 0x05, 0x00, 0x50, 0x96, 0x58, 0x03]"
    by code_simp
  from bcc_field_of_buildPacket [of "[0x13, 1, 1, 0, 0]" "0x92" "0x00" "[0x01, 0x05, 0x00, 0x50]"
      "[0x02, 0x00, 0x16, 0x13, 0x01, 0x01, 0x00, 0x00, 0x13, 0x00, 0x00, 0x00, 0x00,
            0x92, 0x00, 0x01, 0x05, 0x00, 0x50, 0x96, 0x58, 0x03]"] b
  show ?thesis by simp
qed


text \<open>
  Claim C2 as the specification states it gives the value \<open>0x5C96\<close>, bytes \<open>96 5C\<close>,
  for that frame: the sum of the eight words is \<open>0xA769\<close>, not \<open>0xA369\<close>.
\<close>

theorem bcc_field_spec_value_counterexample:
  "\<not> (length (projr (controlLampDimming 1 1 5 80)) = 22
       \<and> projr (controlLampDimming 1 1 5 80) ! 19 = 0x96
       \<and> projr (controlLampDimming 1 1 5 80) ! 20 = 0x5C)"
  by (simp add: dimming_frame)


subsection \<open>Claim C10: the checksum fits its field\<close>

text \<open>
  Claim C10. For every buffer and every pair of indices, \<open>calculateBCC\<close> returns an
  integer from 0 to \<open>0xFFFF\<close>: the final mask makes the result fit the two bytes of the
  BCC field also when the folded sum has more than 16 bits (the witness is such a buffer: the
  folded sum is \<open>0x10000\<close>). The function is deterministic: as a function of the model it
  has no other input than its arguments, and inside the buffer its result is determined by
  the bytes between \<open>start\<close> and \<open>end\<close> alone.
\<close>

theorem calculateBCC_fits_field:
  "0 \<le> calculateBCC data start end \<and> calculateBCC data start end \<le> 0xFFFF
   \<and> (end \<le> length data \<and> end \<le> length data'
        \<and> take (end - start) (drop start data) = take (end - start) (drop start data')
      \<longrightarrow> calculateBCC data start end = calculateBCC data' start end)"
proof (intro conjI impI)
  show "0 \<le> calculateBCC data start end"
    by (simp add: calculateBCC_def Let_def and_nonnegative_int_iff)
  show "calculateBCC data start end \<le> 0xFFFF"
    by (simp add: calculateBCC_def Let_def AND_upper2)
next
  assume "end \<le> length data \<and> end \<le> length data'
        \<and> take (end - start) (drop start data) = take (end - start) (drop start data')"
  then show "calculateBCC data start end = calculateBCC data' start end"
    by (simp add: calculateBCC_spec)
qed

theorem calculateBCC_fits_field_witness:
  "(let acc = bcc_loop [0xFF, 0xFF, 0xFF, 0xFF, 0x00, 0x01] 0 6 0
    in (toInt32 acc AND 0xffff) + drop_bit 16 (toInt32 acc)) = 0x10000
   \<and> calculateBCC [0xFF, 0xFF, 0xFF, 0xFF, 0x00, 0x01] 0 6 = 0xFFFF
   \<and> calculateBCC [0xFF, 0xFF, 0xFF, 0xFF, 0x00, 0x01] 0 6
       = calculateBCC [0xFF, 0xFF, 0xFF, 0xFF, 0x00, 0x01, 0x77] 0 6"
proof -
  have a: "(let acc = bcc_loop [0xFF, 0xFF, 0xFF, 0xFF, 0x00, 0x01] 0 6 0
    in (toInt32 acc AND 0xffff) + drop_bit 16 (toInt32 acc)) = 0x10000"
    by code_simp
  have b: "calculateBCC [0xFF, 0xFF, 0xFF, 0xFF, 0x00, 0x01] 0 6 = 0xFFFF"
    by code_simp
  from calculateBCC_fits_field [of "[0xFF, 0xFF, 0xFF, 0xFF, 0x00, 0x01]" 0 6
      "[0xFF, 0xFF, 0xFF, 0xFF, 0x00, 0x01, 0x77]"]
  have "calculateBCC [0xFF, 0xFF, 0xFF, 0xFF, 0x00, 0x01] 0 6
       = calculateBCC [0xFF, 0xFF, 0xFF, 0xFF, 0x00, 0x01, 0x77] 0 6"
    by simp
  with a b show ?thesis by simp
qed

subsection \<open>Claim C1: a built frame does not decode\<close>

lemma uint_byte_of_small: "0 \<le> k \<Longrightarrow> k < 256 \<Longrightarrow> uint (word_of_int k :: byte) = k"
  by (simp add: uint_word_of_int_eq take_bit_int_eq_self)

text \<open>
  Claim C1 states that \<open>parseResponsePacket\<close> decodes what \<open>buildPacket\<close> encodes.
  The code does not: \<open>buildPacket\<close> writes the length big-endian and
  \<open>parseResponsePacket\<close> reads it little-endian. Every frame with a five-byte destination
  address and fewer than 238 data bytes (every frame of the fixed-size builders) is reported
  incomplete: the length \<open>L < 256\<close> is read as \<open>256 * L\<close>, more than the \<open>L\<close>
  bytes of the buffer.
\<close>

theorem built_frame_does_not_parse:
  assumes "length destAddr = 5" and "length data < 238"
  shows "\<exists>p. buildPacket destAddr op1 op2 data = Inr p \<and> length p = 18 + length data
             \<and> parseResponsePacket p = Inr None"
proof -
  let ?L = "18 + length data"
  let ?p = "[STX, word_of_int (int ?L div 256), word_of_int (int ?L)]
          @ (Buffer_from destAddr @ Buffer_from HOST_ADDRESS
             @ [word_of_int op1, word_of_int op2] @ data)
          @ [word_of_int (bcc_spec (Buffer_from destAddr @ Buffer_from HOST_ADDRESS
                                     @ [word_of_int op1, word_of_int op2] @ data)),
             word_of_int (bcc_spec (Buffer_from destAddr @ Buffer_from HOST_ADDRESS
                                     @ [word_of_int op1, word_of_int op2] @ data) div 256),
             ETX]"
  have bp: "buildPacket destAddr op1 op2 data = Inr ?p"
    using assms by (intro buildPacket_layout) simp_all
  have len: "length ?p = ?L"
    using assms by (simp add: Buffer_from_def HOST_ADDRESS_def)
  have hi: "unat (word_of_int (int ?L div 256) :: byte) = 0"
    using assms by simp
  have lo: "unat (word_of_int (int ?L) :: byte) = ?L"
  proof -
    have "uint (word_of_int (int ?L) :: byte) = int ?L"
      using assms by (intro uint_byte_of_small) simp_all
    then show ?thesis by (simp add: unat_eq_nat_uint)
  qed
  have rd: "readUInt16LE ?p 1 = Inr (256 * ?L)"
    using hi lo by (simp add: readUInt16LE_def)
  have "parseResponsePacket ?p = Inr None"
    unfolding parseResponsePacket_def using len rd
    by (simp add: STX_def)
  with bp len show ?thesis by blast
qed

theorem built_frame_does_not_parse_witness:
  "parseResponsePacket [0x02, 0x00, 0x16, 0x13, 0x01, 0x01, 0x00, 0x00, 0x13, 0x00, 0x00,
      0x00, 0x00, 0x92, 0x00, 0x01, 0x05, 0x00, 0x50, 0x96, 0x58, 0x03] = Inr None"
proof -
  have "length [0x13, 1, 1, 0, 0 :: int] = 5" and "length [0x01, 0x05, 0x00, 0x50 :: byte] < 238"
    by simp_all
  from built_frame_does_not_parse [OF this, of "0x92" "0x00"]
  show ?thesis
    using dimming_frame
    by (simp add: controlLampDimming_def Buffer_from_def)
qed

subsection \<open>Claim C4: the builders do not validate\<close>

lemma uint_byte: "uint (word_of_int k :: byte) = k mod 256"
  by (simp add: uint_word_of_int_eq take_bit_eq_mod)

lemma uint_byte_nat: "uint (word_of_nat n :: byte) = int n mod 256"
  using uint_byte [of "int n"] by simp

lemma buildPacket_frame:
  assumes "length destAddr = 5" and "length data \<le> 65517"
  shows "\<exists>p. buildPacket destAddr op1 op2 data = Inr p \<and> length p = 18 + length data
            \<and> map uint (take 5 (drop 3 p)) = map (\<lambda>k. k mod 256) destAddr
            \<and> map uint (take 2 (drop 13 p)) = [op1 mod 256, op2 mod 256]
            \<and> map uint (take (length data) (drop 15 p)) = map uint data"
proof -
  let ?pre = "[STX, word_of_int (int (18 + length data) div 256), word_of_int (int (18 + length data))]"
  let ?DB = "Buffer_from destAddr"
  let ?HB = "Buffer_from HOST_ADDRESS"
  let ?ops = "[word_of_int op1, word_of_int op2] :: byte list"
  let ?body = "Buffer_from destAddr @ Buffer_from HOST_ADDRESS
             @ [word_of_int op1, word_of_int op2] @ data"
  let ?post = "[word_of_int (bcc_spec ?body), word_of_int (bcc_spec ?body div 256), ETX]"
  let ?p = "?pre @ ?body @ ?post"
  have lD: "length ?DB = 5" using assms by (simp add: Buffer_from_def)
  have lH: "length ?HB = 5" by (simp add: Buffer_from_def HOST_ADDRESS_def)
  have bp: "buildPacket destAddr op1 op2 data = Inr ?p"
    using assms by (rule buildPacket_layout)
  have p1: "?p = ?pre @ ?DB @ (?HB @ ?ops @ data @ ?post)" by simp
  have p2: "?p = (?pre @ ?DB @ ?HB @ ?ops) @ data @ ?post" by simp
  have p3: "?p = (?pre @ ?DB @ ?HB) @ ?ops @ (data @ ?post)" by simp
  have a: "length ?p = 18 + length data" using lD lH by simp
  have "take 5 (drop 3 ?p) = ?DB"
    unfolding p1 using lD by simp
  then have b: "map uint (take 5 (drop 3 ?p)) = map (\<lambda>k. k mod 256) destAddr"
    by (simp only: Buffer_from_def map_map o_def uint_byte)
  have c: "map uint (take 2 (drop 13 ?p)) = [op1 mod 256, op2 mod 256]"
  proof -
    have "length (?pre @ ?DB @ ?HB) = 13" using lD lH by simp
    then have "drop 13 ((?pre @ ?DB @ ?HB) @ ?ops @ (data @ ?post)) = ?ops @ (data @ ?post)"
      by (simp only: drop_append) simp
    then have "take 2 (drop 13 ?p) = ?ops" unfolding p3 by simp
    then show ?thesis by (simp add: uint_byte)
  qed
  have d: "map uint (take (length data) (drop 15 ?p)) = map uint data"
  proof -
    have "length (?pre @ ?DB @ ?HB @ ?ops) = 15" using lD lH by simp
    then have "drop 15 ((?pre @ ?DB @ ?HB @ ?ops) @ data @ ?post) = data @ ?post"
      by (simp only: drop_append) simp
    then have "take (length data) (drop 15 ?p) = data" unfolding p2 by simp
    then show ?thesis by (simp only:)
  qed
  show ?thesis by (rule exI [of _ ?p]) (intro conjI bp a b c d)
qed

lemma frame_getLampBrightness:
  "\<exists>p. getLampBrightness masterAddr cuAddr deviceType = Inr p \<and> length p = 18
       \<and> map uint (take 5 (drop 3 p))
           = [(case deviceTypeMap deviceType of Some t \<Rightarrow> t | None \<Rightarrow> 0),
              masterAddr mod 256, cuAddr mod 256, 0, 0]
       \<and> map uint (take 2 (drop 13 p)) = [0x96, 0x00]"
proof -
  let ?t = "case deviceTypeMap deviceType of Some t \<Rightarrow> t | None \<Rightarrow> 0"
  have t: "?t mod 256 = ?t" by (simp add: deviceTypeMap_def)
  have "length [?t, masterAddr, cuAddr, 0x00, 0x00] = 5" and "length ([] :: byte list) \<le> 65517"
    by simp_all
  from buildPacket_frame [OF this, of "0x96" "0x00"] show ?thesis
    by (simp add: getLampBrightness_def t)
qed

lemma frame_getLampColorTemperature:
  "\<exists>p. getLampColorTemperature masterAddr cuAddr = Inr p \<and> length p = 18
       \<and> map uint (take 5 (drop 3 p)) = [0x13, masterAddr mod 256, cuAddr mod 256, 0, 0]
       \<and> map uint (take 2 (drop 13 p)) = [0x96, 0x06]"
proof -
  have "length [0x13, masterAddr, cuAddr, 0x00, 0x00] = 5" and "length ([] :: byte list) \<le> 65517"
    by simp_all
  from buildPacket_frame [OF this, of "0x96" "0x06"] show ?thesis
    by (simp add: getLampColorTemperature_def)
qed

lemma frame_getDeviceName:
  "\<exists>p. getDeviceName = Inr p \<and> length p = 18
       \<and> map uint (take 5 (drop 3 p)) = [0x13, 0, 0, 0, 0]
       \<and> map uint (take 2 (drop 13 p)) = [0xa2, 0x05]"
proof -
  have "length [0x13, 0x00, 0x00, 0x00, 0x00 :: int] = 5" and "length ([] :: byte list) \<le> 65517"
    by simp_all
  from buildPacket_frame [OF this, of "0xa2" "0x05"] show ?thesis
    by (simp add: getDeviceName_def)
qed

lemma frame_fixed:
  assumes "length args = n" and "n \<le> 65517"
  shows "\<exists>p. buildPacket [0x13, masterAddr, cuAddr, 0x00, 0x00] op1 op2 (Buffer_from args) = Inr p
       \<and> length p = 18 + n
       \<and> map uint (take 5 (drop 3 p)) = [0x13, masterAddr mod 256, cuAddr mod 256, 0, 0]
       \<and> map uint (take 2 (drop 13 p)) = [op1 mod 256, op2 mod 256]
       \<and> map uint (take n (drop 15 p)) = map (\<lambda>k. k mod 256) args"
proof -
  have l: "length (Buffer_from args) = n" using assms by (simp add: Buffer_from_def)
  have u: "map uint (Buffer_from args) = map (\<lambda>k. k mod 256) args"
    by (simp add: Buffer_from_def o_def uint_byte)
  have "length [0x13, masterAddr, cuAddr, 0x00, 0x00] = 5" and "length (Buffer_from args) \<le> 65517"
    using assms l by simp_all
  from buildPacket_frame [OF this, of op1 op2] show ?thesis
    unfolding l u by simp
qed

lemma block_data:
  "[word_of_int cuAddr, word_of_int (int (length lampList))]
     @ map word_of_int lampList @ [word_of_int v]
   = Buffer_from ([cuAddr, int (length lampList)] @ lampList @ [v])"
  by (simp add: Buffer_from_def)

text \<open>
  Claim C4, as it holds on the code. No builder checks its arguments, and none can fail with
  an argument error. Each of the eight builders returns an encoded frame for all integer
  arguments (\<open>controlLampBlock\<close> and \<open>controlLampColorTemp\<close> for every list of
  \<open>n \<le> 65514\<close> lamps, the longest that fits the 16-bit length field): the frame has
  \<open>18 + len(Data)\<close> bytes and carries the destination address, the two operation codes
  and the data, each argument stored modulo 256, so arguments in range are stored unchanged.
\<close>

theorem builders_encode_without_validation:
  "(\<exists>p. controlLampDimming masterAddr cuAddr lampNo brightness = Inr p \<and> length p = 22
        \<and> map uint (take 5 (drop 3 p)) = [0x13, masterAddr mod 256, cuAddr mod 256, 0, 0]
        \<and> map uint (take 2 (drop 13 p)) = [0x92, 0x00]
        \<and> map uint (take 4 (drop 15 p))
            = [cuAddr mod 256, lampNo mod 256, 0, brightness mod 256])
   \<and> (length lampList \<le> 65514 \<longrightarrow>
        (\<exists>p. controlLampBlock masterAddr cuAddr lampList brightness = Inr p
           \<and> length p = 21 + length lampList
           \<and> map uint (take 5 (drop 3 p)) = [0x13, masterAddr mod 256, cuAddr mod 256, 0, 0]
           \<and> map uint (take 2 (drop 13 p)) = [0x90, 0x00]
           \<and> map uint (take (3 + length lampList) (drop 15 p))
               = [cuAddr mod 256, int (length lampList) mod 256]
                 @ map (\<lambda>lampNo. lampNo mod 256) lampList @ [brightness mod 256]))
   \<and> (length lampList \<le> 65514 \<longrightarrow>
        (\<exists>p. controlLampColorTemp masterAddr cuAddr lampList colorTemp = Inr p
           \<and> length p = 21 + length lampList
           \<and> map uint (take 5 (drop 3 p)) = [0x13, masterAddr mod 256, cuAddr mod 256, 0, 0]
           \<and> map uint (take 2 (drop 13 p)) = [0x90, 0x05]
           \<and> map uint (take (3 + length lampList) (drop 15 p))
               = [cuAddr mod 256, int (length lampList) mod 256]
                 @ map (\<lambda>lampNo. lampNo mod 256) lampList @ [colorTemp mod 256]))
   \<and> (\<exists>p. executeScene masterAddr cuAddr sceneNo fadeTime = Inr p \<and> length p = 21
        \<and> map uint (take 5 (drop 3 p)) = [0x13, masterAddr mod 256, cuAddr mod 256, 0, 0]
        \<and> map uint (take 2 (drop 13 p)) = [0x91, 0x00]
        \<and> map uint (take 3 (drop 15 p)) = [cuAddr mod 256, sceneNo mod 256, fadeTime mod 256])
   \<and> (\<exists>p. controlAllLamps masterAddr cuAddr brightness = Inr p \<and> length p = 20
        \<and> map uint (take 5 (drop 3 p)) = [0x13, masterAddr mod 256, cuAddr mod 256, 0, 0]
        \<and> map uint (take 2 (drop 13 p)) = [0x90, 0x02]
        \<and> map uint (take 2 (drop 15 p)) = [cuAddr mod 256, brightness mod 256])
   \<and> (\<exists>p. getLampBrightness masterAddr cuAddr deviceType = Inr p \<and> length p = 18
        \<and> map uint (take 5 (drop 3 p))
            = [(case deviceTypeMap deviceType of Some t \<Rightarrow> t | None \<Rightarrow> 0),
               masterAddr mod 256, cuAddr mod 256, 0, 0]
        \<and> map uint (take 2 (drop 13 p)) = [0x96, 0x00])
   \<and> (\<exists>p. getLampColorTemperature masterAddr cuAddr = Inr p \<and> length p = 18
        \<and> map uint (take 5 (drop 3 p)) = [0x13, masterAddr mod 256, cuAddr mod 256, 0, 0]
        \<and> map uint (take 2 (drop 13 p)) = [0x96, 0x06])
   \<and> (\<exists>p. getDeviceName = Inr p \<and> length p = 18
        \<and> map uint (take 5 (drop 3 p)) = [0x13, 0, 0, 0, 0]
        \<and> map uint (take 2 (drop 13 p)) = [0xa2, 0x05])"
proof (intro conjI impI)
  have "length [cuAddr, lampNo, 0x00, brightness] = 4" and "(4::nat) \<le> 65517" by simp_all
  from frame_fixed [OF this, of masterAddr cuAddr "0x92" "0x00"]
  show "\<exists>p. controlLampDimming masterAddr cuAddr lampNo brightness = Inr p \<and> length p = 22
        \<and> map uint (take 5 (drop 3 p)) = [0x13, masterAddr mod 256, cuAddr mod 256, 0, 0]
        \<and> map uint (take 2 (drop 13 p)) = [0x92, 0x00]
        \<and> map uint (take 4 (drop 15 p))
            = [cuAddr mod 256, lampNo mod 256, 0, brightness mod 256]"
    by (simp add: controlLampDimming_def)
next
  assume n: "length lampList \<le> 65514"
  have "length ([cuAddr, int (length lampList)] @ lampList @ [brightness]) = 3 + length lampList"
    and "3 + length lampList \<le> 65517"
    using n by simp_all
  from frame_fixed [OF this, of masterAddr cuAddr "0x90" "0x00"]
  show "\<exists>p. controlLampBlock masterAddr cuAddr lampList brightness = Inr p
           \<and> length p = 21 + length lampList
           \<and> map uint (take 5 (drop 3 p)) = [0x13, masterAddr mod 256, cuAddr mod 256, 0, 0]
           \<and> map uint (take 2 (drop 13 p)) = [0x90, 0x00]
           \<and> map uint (take (3 + length lampList) (drop 15 p))
               = [cuAddr mod 256, int (length lampList) mod 256]
                 @ map (\<lambda>lampNo. lampNo mod 256) lampList @ [brightness mod 256]"
    unfolding controlLampBlock_def Let_def block_data by simp
next
  assume n: "length lampList \<le> 65514"
  have "length ([cuAddr, int (length lampList)] @ lampList @ [colorTemp]) = 3 + length lampList"
    and "3 + length lampList \<le> 65517"
    using n by simp_all
  from frame_fixed [OF this, of masterAddr cuAddr "0x90" "0x05"]
  show "\<exists>p. controlLampColorTemp masterAddr cuAddr lampList colorTemp = Inr p
           \<and> length p = 21 + length lampList
           \<and> map uint (take 5 (drop 3 p)) = [0x13, masterAddr mod 256, cuAddr mod 256, 0, 0]
           \<and> map uint (take 2 (drop 13 p)) = [0x90, 0x05]
           \<and> map uint (take (3 + length lampList) (drop 15 p))
               = [cuAddr mod 256, int (length lampList) mod 256]
                 @ map (\<lambda>lampNo. lampNo mod 256) lampList @ [colorTemp mod 256]"
    unfolding controlLampColorTemp_def Let_def block_data by simp
next
  have "length [cuAddr, sceneNo, fadeTime] = 3" and "(3::nat) \<le> 65517" by simp_all
  from frame_fixed [OF this, of masterAddr cuAddr "0x91" "0x00"]
  show "\<exists>p. executeScene masterAddr cuAddr sceneNo fadeTime = Inr p \<and> length p = 21
        \<and> map uint (take 5 (drop 3 p)) = [0x13, masterAddr mod 256, cuAddr mod 256, 0, 0]
        \<and> map uint (take 2 (drop 13 p)) = [0x91, 0x00]
        \<and> map uint (take 3 (drop 15 p)) = [cuAddr mod 256, sceneNo mod 256, fadeTime mod 256]"
    by (simp add: executeScene_def)
next
  have "length [cuAddr, brightness] = 2" and "(2::nat) \<le> 65517" by simp_all
  from frame_fixed [OF this, of masterAddr cuAddr "0x90" "0x02"]
  show "\<exists>p. controlAllLamps masterAddr cuAddr brightness = Inr p \<and> length p = 20
        \<and> map uint (take 5 (drop 3 p)) = [0x13, masterAddr mod 256, cuAddr mod 256, 0, 0]
        \<and> map uint (take 2 (drop 13 p)) = [0x90, 0x02]
        \<and> map uint (take 2 (drop 15 p)) = [cuAddr mod 256, brightness mod 256]"
    by (simp add: controlAllLamps_def)
next
  show "\<exists>p. getLampBrightness masterAddr cuAddr deviceType = Inr p \<and> length p = 18
        \<and> map uint (take 5 (drop 3 p))
            = [(case deviceTypeMap deviceType of Some t \<Rightarrow> t | None \<Rightarrow> 0),
               masterAddr mod 256, cuAddr mod 256, 0, 0]
        \<and> map uint (take 2 (drop 13 p)) = [0x96, 0x00]"
    by (rule frame_getLampBrightness)
next
  show "\<exists>p. getLampColorTemperature masterAddr cuAddr = Inr p \<and> length p = 18
        \<and> map uint (take 5 (drop 3 p)) = [0x13, masterAddr mod 256, cuAddr mod 256, 0, 0]
        \<and> map uint (take 2 (drop 13 p)) = [0x96, 0x06]"
    by (rule frame_getLampColorTemperature)
next
  show "\<exists>p. getDeviceName = Inr p \<and> length p = 18
        \<and> map uint (take 5 (drop 3 p)) = [0x13, 0, 0, 0, 0]
        \<and> map uint (take 2 (drop 13 p)) = [0xa2, 0x05]"
    by (rule frame_getDeviceName)
qed

theorem builders_encode_without_validation_witness:
  "(\<exists>p. controlLampBlock 1 1 [1, 2, 3] 80 = Inr p \<and> length p = 24
        \<and> map uint (take 5 (drop 3 p)) = [0x13, 1, 1, 0, 0]
        \<and> map uint (take 2 (drop 13 p)) = [0x90, 0x00]
        \<and> map uint (take 6 (drop 15 p)) = [1, 3, 1, 2, 3, 80])
   \<and> (\<exists>p. controlLampColorTemp 1 1 [1, 2, 3] 40 = Inr p \<and> length p = 24
        \<and> map uint (take 5 (drop 3 p)) = [0x13, 1, 1, 0, 0]
        \<and> map uint (take 2 (drop 13 p)) = [0x90, 0x05]
        \<and> map uint (take 6 (drop 15 p)) = [1, 3, 1, 2, 3, 40])"
proof
  note t = builders_encode_without_validation [where masterAddr = 1 and cuAddr = 1
      and lampList = "[1, 2, 3]" and brightness = 80 and colorTemp = 40]
  have h: "length [1, 2, 3 :: int] \<le> 65514" by simp
  from t [THEN conjunct2, THEN conjunct1, THEN mp, OF h]
  show "\<exists>p. controlLampBlock 1 1 [1, 2, 3] 80 = Inr p \<and> length p = 24
        \<and> map uint (take 5 (drop 3 p)) = [0x13, 1, 1, 0, 0]
        \<and> map uint (take 2 (drop 13 p)) = [0x90, 0x00]
        \<and> map uint (take 6 (drop 15 p)) = [1, 3, 1, 2, 3, 80]"
    by simp
  from t [THEN conjunct2, THEN conjunct2, THEN conjunct1, THEN mp, OF h]
  show "\<exists>p. controlLampColorTemp 1 1 [1, 2, 3] 40 = Inr p \<and> length p = 24
        \<and> map uint (take 5 (drop 3 p)) = [0x13, 1, 1, 0, 0]
        \<and> map uint (take 2 (drop 13 p)) = [0x90, 0x05]
        \<and> map uint (take 6 (drop 15 p)) = [1, 3, 1, 2, 3, 40]"
    by simp
qed

text \<open>
  Claim C4 as the specification states it has the builder fail with \<open>InvalidArgument\<close>
  for arguments out of range. With master address 300, CU address 0, lamp 65 and brightness
  200 the builder returns a frame.
\<close>

theorem builder_validation_counterexample:
  "controlLampDimming 300 0 65 200 =
     Inr [0x02, 0x00, 0x16, 0x13, 0x2C, 0x00, 0x00, 0x00, 0x13, 0x00, 0x00, 0x00, 0x00,
          0x92, 0x00, 0x00, 0x41, 0x00, 0xC8, 0xB7, 0x59, 0x03]"
  by code_simp

section \<open>Properties of the TCP client\<close>

subsection \<open>Claim C3: the read loop never drops a byte\<close>












subsection \<open>Claim C6: which response settles which request\<close>















lemma two_pending_state:
  "two_pending = \<lparr>isConnected = True, responseBuffer = [], responseCallbacks = [1, 2],
                   requestId = 2, listeners = [1, 2], written = [dim5_packet, dim6_packet],
                   settled = (\<lambda>_. None)\<rparr>"
  by (simp add: two_pending_def sendPacket_def socket_connected_def new_client_def Let_def)

lemma three_pending_state:
  "three_pending = \<lparr>isConnected = True, responseBuffer = [], responseCallbacks = [1, 2, 3],
                   requestId = 3, listeners = [1, 2, 3],
                   written = [dim5_packet, dim6_packet, dim5_packet],
                   settled = (\<lambda>_. None)\<rparr>"
  by (simp add: three_pending_def two_pending_state sendPacket_def Let_def)




subsection \<open>Claim C5: pending requests when the socket closes\<close>

text \<open>
  Claim C5, as it holds on the code. The \<open>close\<close> handler clears \<open>isConnected\<close>
  and touches nothing else: no pending promise is settled by the close and every pending
  request keeps its entry and its timer. A request that is pending when the socket closes
  fails when its own timer fires, with the response-timeout error. A send after the close is
  rejected at once with the not-connected error.
\<close>

theorem close_leaves_requests_pending:
  "settled (socket_close st) = settled st
   \<and> responseCallbacks (socket_close st) = responseCallbacks st
   \<and> \<not> isConnected (socket_close st)
   \<and> sendPacket (socket_close st) packet = (socket_close st, Inl NotConnected)
   \<and> (rid \<in> set (responseCallbacks st) \<and> settled st rid = None
        \<longrightarrow> settled (timeout_fires rid (socket_close st)) rid = Some (Rejected ResponseTimeout))"
  by (simp add: socket_close_def sendPacket_def timeout_fires_def settle_def)

theorem close_leaves_requests_pending_witness:
  "map (\<lambda>rid. settled (timeout_fires rid (socket_close three_pending)) rid) [1, 2, 3]
   = [Some (Rejected ResponseTimeout), Some (Rejected ResponseTimeout),
      Some (Rejected ResponseTimeout)]"
proof -
  have "\<And>rid. rid \<in> {1, 2, 3} \<Longrightarrow>
      rid \<in> set (responseCallbacks three_pending) \<and> settled three_pending rid = None"
    by (simp add: three_pending_state)
  then show ?thesis
    using close_leaves_requests_pending [of three_pending _ 1]
      close_leaves_requests_pending [of three_pending _ 2]
      close_leaves_requests_pending [of three_pending _ 3]
    by simp
qed

text \<open>
  Claim C5 as the specification states it has all three pending promises fail when the peer
  closes the connection. After the close none of the three is settled.
\<close>

theorem close_fails_nothing_counterexample:
  "map (settled (socket_close three_pending)) [1, 2, 3] = [None, None, None]
   \<and> responseCallbacks (socket_close three_pending) = [1, 2, 3]"
  by (simp add: three_pending_state socket_close_def)

section \<open>Properties of the agent manager\<close>

subsection \<open>Claim C7: removing the default agent\<close>

lemma keys_after_remove:
  "map fst (filter (\<lambda>(k, c). k \<noteq> agentId) xs) = filter (\<lambda>k. k \<noteq> agentId) (map fst xs)"
  by (induction xs) auto

lemma agents_a_b_state:
  "agents_a_b = \<lparr>agents = [(''a'', \<lparr>c_name = ''Agent-a'', c_host = ''10.0.0.1'', c_port = 1000\<rparr>),
                            (''b'', \<lparr>c_name = ''Agent-b'', c_host = ''10.0.0.2'', c_port = 1000\<rparr>)],
                  defaultAgentId = Some ''a''\<rparr>"
  by (simp add: agents_a_b_def addAgent_def new_manager_def Let_def)

text \<open>
  Claim C7. \<open>removeAgent\<close> of the current default agent removes that agent and makes the
  oldest remaining agent, the first key of the registry in insertion order, the default; the
  default is \<open>null\<close> when no agent remains. After \<open>addAgent("a")\<close>,
  \<open>addAgent("b")\<close> the default is \<open>"a"\<close>; after \<open>removeAgent("a")\<close> it is
  \<open>"b"\<close>, and after a further \<open>removeAgent("b")\<close> it is \<open>null\<close>.
\<close>

theorem removeAgent_promotes_oldest:
  "(defaultAgentId mgr = Some agentId \<and> agentId \<in> fst ` set (agents mgr) \<longrightarrow>
      snd (removeAgent mgr agentId)
      \<and> map fst (agents (fst (removeAgent mgr agentId)))
          = filter (\<lambda>k. k \<noteq> agentId) (map fst (agents mgr))
      \<and> defaultAgentId (fst (removeAgent mgr agentId))
          = (case filter (\<lambda>k. k \<noteq> agentId) (map fst (agents mgr)) of
               [] \<Rightarrow> None | oldest # _ \<Rightarrow> Some oldest))
   \<and> defaultAgentId agents_a_b = Some ''a''
   \<and> defaultAgentId (fst (removeAgent agents_a_b ''a'')) = Some ''b''
   \<and> defaultAgentId (fst (removeAgent (fst (removeAgent agents_a_b ''a'')) ''b'')) = None"
proof (intro conjI impI)
  assume a: "defaultAgentId mgr = Some agentId \<and> agentId \<in> fst ` set (agents mgr)"
  then obtain ctl where m: "map_of (agents mgr) agentId = Some ctl"
    by (cases "map_of (agents mgr) agentId") (auto simp: map_of_eq_None_iff)
  show "snd (removeAgent mgr agentId)"
    by (simp add: removeAgent_def m Let_def)
  show "map fst (agents (fst (removeAgent mgr agentId)))
          = filter (\<lambda>k. k \<noteq> agentId) (map fst (agents mgr))"
    by (simp add: removeAgent_def m Let_def keys_after_remove)
  show "defaultAgentId (fst (removeAgent mgr agentId))
          = (case filter (\<lambda>k. k \<noteq> agentId) (map fst (agents mgr)) of
               [] \<Rightarrow> None | oldest # _ \<Rightarrow> Some oldest)"
    using a by (simp add: removeAgent_def m Let_def keys_after_remove)
next
  show "defaultAgentId agents_a_b = Some ''a''" by (simp add: agents_a_b_state)
  show "defaultAgentId (fst (removeAgent agents_a_b ''a'')) = Some ''b''"
    by (simp add: agents_a_b_state removeAgent_def Let_def)
  show "defaultAgentId (fst (removeAgent (fst (removeAgent agents_a_b ''a'')) ''b'')) = None"
    by (simp add: agents_a_b_state removeAgent_def Let_def)
qed

theorem removeAgent_promotes_oldest_witness:
  "map fst (agents (fst (removeAgent agents_a_b ''a''))) = [''b'']
   \<and> defaultAgentId (fst (removeAgent agents_a_b ''a'')) = Some ''b''"
proof -
  have "defaultAgentId agents_a_b = Some ''a'' \<and> ''a'' \<in> fst ` set (agents agents_a_b)"
    by (simp add: agents_a_b_state)
  with removeAgent_promotes_oldest [of agents_a_b "''a''"]
  show ?thesis by (simp add: agents_a_b_state)
qed

section \<open>Properties of the effects\<close>

subsection \<open>Claim C9: the sleeps of waveEffect\<close>

lemma wave_loop_all:
  "(\<And>k. env k = None) \<Longrightarrow>
   wave_loop env masterAddr cuAddr brightness interval k lampList
     = (concat (map (\<lambda>lampNo. [ControlLamp masterAddr cuAddr lampNo brightness, Sleep interval])
                lampList), None)"
  by (induction lampList arbitrary: k) simp_all

text \<open>
  Claim C9 states that \<open>waveEffect\<close> sends one dim command per lamp in list order and
  sleeps only between consecutive commands. The commands are as claimed; the sleeps are not:
  when every command is acknowledged, the loop sleeps \<open>interval\<close> milliseconds after
  every command, the last one included, so the effect completes one interval after the last
  acknowledgement. (\<open>fadeControl\<close> guards its sleep with \<open>i < steps\<close>;
  \<open>waveEffect\<close> has no such guard.)
\<close>

theorem waveEffect_sleeps_after_every_lamp:
  "(\<forall>k. env k = None) \<longrightarrow>
   waveEffect True env masterAddr cuAddr lampList brightness interval
     = (concat (map (\<lambda>lampNo. [ControlLamp masterAddr cuAddr lampNo brightness, Sleep interval])
                lampList), None)"
  by (simp add: waveEffect_def wave_loop_all)

theorem waveEffect_sleeps_after_every_lamp_witness:
  "waveEffect True all_acknowledged 1 1 [1, 2] 50 500
     = ([ControlLamp 1 1 1 50, Sleep 500, ControlLamp 1 1 2 50, Sleep 500], None)"
  using waveEffect_sleeps_after_every_lamp [of all_acknowledged 1 1 "[1, 2]" 50 500]
  by (simp add: all_acknowledged_def)

subsection \<open>Claim C8: the steps of fadeControl\<close>

lemma fade_loop_all:
  "\<forall>k. env k = None \<Longrightarrow>
   fade_loop env masterAddr cuAddr lampNo startBrightness stepSize stepDuration steps i
     = (concat (map (\<lambda>j. ControlLamp masterAddr cuAddr lampNo
                            (Math_round (js_add startBrightness (js_mul stepSize (of_nat j))))
                          # (if j < steps then [Sleep stepDuration] else []))
                [i..<Suc steps]), None)"
proof (induction env masterAddr cuAddr lampNo startBrightness stepSize stepDuration steps i
    rule: fade_loop.induct)
  case (1 env masterAddr cuAddr lampNo startBrightness stepSize stepDuration steps i)
  show ?case
  proof (cases "i \<le> steps")
    case False
    then show ?thesis by (subst fade_loop.simps) simp
  next
    case True
    have e: "env i = None" using "1.prems" by simp
    have u: "[i..<Suc steps] = i # [i + 1..<Suc steps]"
      using True by (simp add: upt_conv_Cons del: upt_Suc)
    show ?thesis
      apply (subst fade_loop.simps)
      apply (simp only: u)
      using True e "1.IH" [OF True refl refl e "1.prems"]
      apply (simp add: Let_def del: upt_Suc)
      done
  qed
qed


lemma brightness_values_steps:
  "brightness_values (concat (map (\<lambda>j. ControlLamp m c l (f j) # (if j < n then [Sleep d] else [])) js))
   = map f js"
  by (induction js) simp_all

lemma fade_brightness_values:
  "\<forall>k. env k = None \<Longrightarrow>
   brightness_values (fst (fadeControl True env masterAddr cuAddr lampNo startBrightness
                             endBrightness duration))
   = map (\<lambda>i. Math_round (js_add (of_int startBrightness)
                 (js_mul (js_div (js_sub (of_int endBrightness) (of_int startBrightness)) 20)
                         (of_nat i))))
         [0..<21]"
  by (simp add: fadeControl_def Let_def fade_loop_all brightness_values_steps del: upt_Suc)

text \<open>
  Claim C8, as it holds on the code. When the controller is connected and every command is
  acknowledged, \<open>fadeControl\<close> issues exactly 21 dim commands, one for each \<open>i\<close> in
  \<open>0..20\<close>, with a sleep of \<open>duration * 1000 / 20\<close> milliseconds after each but
  the last. The brightness at step \<open>i\<close> is \<open>Math.round(start + stepSize * i)\<close> in
  double arithmetic, where \<open>stepSize = (end - start) / 20\<close> has been rounded to a double
  first. With start 0, end 100 and duration 1 the values are \<open>[0, 5, 10, ..., 100]\<close>.
\<close>

theorem fadeControl_steps:
  "((\<forall>k. env k = None) \<longrightarrow>
      fadeControl True env masterAddr cuAddr lampNo startBrightness endBrightness duration
      = (concat (map (\<lambda>i. ControlLamp masterAddr cuAddr lampNo
                     (Math_round (js_add (of_int startBrightness)
                        (js_mul (js_div (js_sub (of_int endBrightness) (of_int startBrightness)) 20)
                                (of_nat i))))
                   # (if i < 20 then [Sleep (js_div (js_mul (of_int duration) 1000) 20)] else []))
                 [0..<21]), None))
   \<and> brightness_values (fst (fadeControl True all_acknowledged 1 1 5 0 100 1))
       = [0, 5, 10, 15, 20, 25, 30, 35, 40, 45, 50, 55, 60, 65, 70, 75, 80, 85, 90, 95, 100]"
proof (intro conjI impI)
  assume "\<forall>k. env k = None"
  then show "fadeControl True env masterAddr cuAddr lampNo startBrightness endBrightness duration
      = (concat (map (\<lambda>i. ControlLamp masterAddr cuAddr lampNo
                     (Math_round (js_add (of_int startBrightness)
                        (js_mul (js_div (js_sub (of_int endBrightness) (of_int startBrightness)) 20)
                                (of_nat i))))
                   # (if i < 20 then [Sleep (js_div (js_mul (of_int duration) 1000) 20)] else []))
                 [0..<21]), None)"
    by (simp add: fadeControl_def Let_def fade_loop_all del: upt_Suc cong: if_cong)
next
  have "brightness_values (fst (fadeControl True all_acknowledged 1 1 5 0 100 1))
      = map (\<lambda>i. Math_round (js_add (of_int 0)
                 (js_mul (js_div (js_sub (of_int 100) (of_int 0)) 20) (of_nat i)))) [0..<21]"
    by (rule fade_brightness_values) (simp add: all_acknowledged_def)
  also have "\<dots> = [0, 5, 10, 15, 20, 25, 30, 35, 40, 45, 50, 55, 60, 65, 70, 75, 80, 85, 90, 95, 100]"
    by code_simp
  finally show "brightness_values (fst (fadeControl True all_acknowledged 1 1 5 0 100 1))
       = [0, 5, 10, 15, 20, 25, 30, 35, 40, 45, 50, 55, 60, 65, 70, 75, 80, 85, 90, 95, 100]" .
qed

theorem fadeControl_steps_witness:
  "snd (fadeControl True all_acknowledged 1 1 5 0 100 1) = None
   \<and> brightness_values (fst (fadeControl True all_acknowledged 1 1 5 0 100 1))
       = [0, 5, 10, 15, 20, 25, 30, 35, 40, 45, 50, 55, 60, 65, 70, 75, 80, 85, 90, 95, 100]"
proof
  note t = fadeControl_steps [of all_acknowledged 1 1 5 0 100 1]
  have h: "\<forall>k. all_acknowledged k = None" by (simp add: all_acknowledged_def)
  from t [THEN conjunct1, THEN mp, OF h]
  show "snd (fadeControl True all_acknowledged 1 1 5 0 100 1) = None"
    by (simp only: snd_conv)
  from t [THEN conjunct2]
  show "brightness_values (fst (fadeControl True all_acknowledged 1 1 5 0 100 1))
       = [0, 5, 10, 15, 20, 25, 30, 35, 40, 45, 50, 55, 60, 65, 70, 75, 80, 85, 90, 95, 100]" .
qed

text \<open>
  Claim C8 as the specification states it gives the value
  \<open>round(start + (end - start) * i / 20)\<close>. For a fade from 0 to 82 that is 62 at step 15
  (exactly 61.5, also when computed in doubles in this order), but the code sends 61: its
  \<open>stepSize\<close> is the double nearest to 4.1, which is below 4.1, and 15 times it is the
  double 61.49999999999999.
\<close>

theorem fadeControl_rounding_counterexample:
  "brightness_values (fst (fadeControl True all_acknowledged 1 1 5 0 82 1)) ! 15 = 61
   \<and> Math_round (0 + (82 - 0) * 15 / 20) = 62
   \<and> Math_round (js_add 0 (js_div (js_mul (js_sub 82 0) 15) 20)) = 62"
proof (intro conjI)
  have "brightness_values (fst (fadeControl True all_acknowledged 1 1 5 0 82 1)) ! 15
      = Math_round (js_add (of_int 0)
                 (js_mul (js_div (js_sub (of_int 82) (of_int 0)) 20) (of_nat 15)))"
    by (subst fade_brightness_values) (simp_all add: all_acknowledged_def del: upt_Suc)
  also have "\<dots> = 61" by code_simp
  finally show "brightness_values (fst (fadeControl True all_acknowledged 1 1 5 0 82 1)) ! 15 = 61" .
  show "Math_round (0 + (82 - 0) * 15 / 20) = 62" by code_simp
  show "Math_round (js_add 0 (js_div (js_mul (js_sub 82 0) 15) 20)) = 62" by code_simp
qed

end
